theory Spec2Isabelle
  imports Main
begin

section \<open>Incremental data ingestion with Auto Loader\<close>

text \<open>
  The notebook \<^verbatim>\<open>4.0-Incremental-Data-Ingestion\<close> defines two Python functions,
  \<^verbatim>\<open>autoload_to_table\<close> and \<^verbatim>\<open>block_until_stream_is_ready\<close>, and calls
  \<^verbatim>\<open>DA.cleanup()\<close>, whose definition lives in the setup notebook
  \<^verbatim>\<open>./Includes/4.0-setup\<close>. Spark itself (the streaming reader and writer, the table
  store, the running query) is an external engine: the model records what the notebook
  asks of it and takes its answers as parameters.
\<close>

subsection \<open>The pipeline built by autoload_to_table\<close>

text \<open>
  \<^verbatim>\<open>
  def autoload_to_table(data_source, source_format, table_name, checkpoint_directory):
      query = (spark.readStream
                    .format("cloudFiles")
                    .option("cloudFiles.format", source_format)
                    .option("cloudFiles.schemaLocation", checkpoint_directory)
                    .load(data_source)
                    .writeStream
                    .option("checkpointLocation", checkpoint_directory)
                    .option("mergeSchema", "true")
                    .table(table_name))
      return query
  \<close>
  Each builder object is a record of what has been said to it so far; options are kept
  in the order of the calls. Two calls of the chain can end it with an exception:
  \<^verbatim>\<open>.load(data_source)\<close> and \<^verbatim>\<open>.table(table_name)\<close>. The others only record their
  arguments.
\<close>

record DataStreamReader =
  r_format :: "string option"
  r_options :: "(string \<times> string) list"

record DataFrame =
  df_reader :: DataStreamReader
  df_path :: string

record DataStreamWriter =
  w_df :: DataFrame
  w_options :: "(string \<times> string) list"

record StartRequest =
  q_writer :: DataStreamWriter
  q_table :: string

text \<open>
  The session \<^verbatim>\<open>spark\<close> stands for the engine, and the engine is a parameter. It is asked
  twice: by \<^verbatim>\<open>.load\<close>, which it may answer with an exception, and by \<^verbatim>\<open>.table\<close>, which it
  answers with an exception or with the handle of the started query.
\<close>

record ('e, 'q) spark =
  load_raises :: "DataFrame \<Rightarrow> 'e option"
  table_answer :: "StartRequest \<Rightarrow> 'e + 'q"

text \<open>
  An exception that ends the chain is either the \<^verbatim>\<open>ValueError\<close> that PySpark's own
  \<^verbatim>\<open>load\<close> raises for a path that is not a non-empty string, or one raised by the engine.
\<close>

datatype 'e error = PathNotNonEmptyStr | Raised 'e

text \<open>
  PySpark's \<^verbatim>\<open>DataStreamReader.load\<close> looks at the path before it asks the engine:
  \<^verbatim>\<open>
  if path is not None:
      if type(path) != str or len(path.strip()) == 0:
          raise ValueError("If the path is provided for stream, it needs to be a " +
                           "non-empty string. List of paths are not supported.")
      return self._df(self._jreader.load(path))
  \<close>
  \<^verbatim>\<open>strip\<close> without an argument removes leading and trailing whitespace. A string is
  the list of its characters, \<open>of_char c\<close> being the code point of the character \<open>c\<close>;
  the code points below 256 that Python counts as whitespace are 9 to 13, 28 to 32, 133
  and 160.
\<close>

definition isspace :: "char \<Rightarrow> bool" where
  "isspace c \<longleftrightarrow>
     (of_char c :: nat) \<in> {9, 10, 11, 12, 13, 28, 29, 30, 31, 32, 133, 160}"

definition strip :: "string \<Rightarrow> string" where
  "strip s = rev (dropWhile isspace (rev (dropWhile isspace s)))"

definition readStream :: DataStreamReader where
  "readStream = \<lparr>r_format = None, r_options = []\<rparr>"

definition format :: "string \<Rightarrow> DataStreamReader \<Rightarrow> DataStreamReader" where
  "format source r = r\<lparr>r_format := Some source\<rparr>"

definition reader_option :: "string \<Rightarrow> string \<Rightarrow> DataStreamReader \<Rightarrow> DataStreamReader" where
  "reader_option key val r = r\<lparr>r_options := r_options r @ [(key, val)]\<rparr>"

definition load ::
  "('e, 'q) spark \<Rightarrow> string \<Rightarrow> DataStreamReader \<Rightarrow> 'e error + DataFrame" where
  "load spark path r =
     (if length (strip path) = 0 then Inl PathNotNonEmptyStr
      else case load_raises spark \<lparr>df_reader = r, df_path = path\<rparr> of
             Some e \<Rightarrow> Inl (Raised e)
           | None \<Rightarrow> Inr \<lparr>df_reader = r, df_path = path\<rparr>)"

definition writeStream :: "DataFrame \<Rightarrow> DataStreamWriter" where
  "writeStream df = \<lparr>w_df = df, w_options = []\<rparr>"

definition writer_option :: "string \<Rightarrow> string \<Rightarrow> DataStreamWriter \<Rightarrow> DataStreamWriter" where
  "writer_option key val w = w\<lparr>w_options := w_options w @ [(key, val)]\<rparr>"

definition table ::
  "('e, 'q) spark \<Rightarrow> string \<Rightarrow> DataStreamWriter \<Rightarrow> 'e error + 'q" where
  "table spark tableName w =
     (case table_answer spark \<lparr>q_writer = w, q_table = tableName\<rparr> of
        Inl e \<Rightarrow> Inl (Raised e)
      | Inr q \<Rightarrow> Inr q)"

text \<open>The function itself; an exception raised by \<^verbatim>\<open>.load\<close> ends the chain there.\<close>

definition autoload_to_table ::
  "('e, 'q) spark \<Rightarrow> string \<Rightarrow> string \<Rightarrow> string \<Rightarrow> string \<Rightarrow> 'e error + 'q" where
  "autoload_to_table spark data_source source_format table_name checkpoint_directory =
     (case load spark data_source
             (reader_option ''cloudFiles.schemaLocation'' checkpoint_directory
               (reader_option ''cloudFiles.format'' source_format
                 (format ''cloudFiles'' readStream))) of
        Inl e \<Rightarrow> Inl e
      | Inr df \<Rightarrow>
          table spark table_name
            (writer_option ''mergeSchema'' ''true''
              (writer_option ''checkpointLocation'' checkpoint_directory
                (writeStream df))))"

subsection \<open>The waiting helper block_until_stream_is_ready\<close>

text \<open>
  \<^verbatim>\<open>
  def block_until_stream_is_ready(query, min_batches=2):
      import time
      while len(query.recentProgress) < min_batches:
          time.sleep(5) # Give it a couple of seconds

      print(f"The stream has processed {len(query.recentProgress)} batchs")
  \<close>
  \<^verbatim>\<open>query.recentProgress\<close> is a property of a live object that the engine updates in
  the background, so two reads may give two different lists. A handle is modelled by
  what its successive reads return: \<open>recentProgress query n\<close> is the list returned by
  read number \<open>n\<close> (counting from 0) of the property. The function does two things the
  caller can observe, sleeping and printing; they are collected, in order, as a list of
  effects. The loop may run forever, so it is a partial function: \<open>None\<close> stands for a
  call that never returns.
\<close>

datatype effect = Sleep nat | Print string

record 'p StreamingQuery =
  recentProgress :: "nat \<Rightarrow> 'p list"

text \<open>
  The state of a running call: how many reads of \<^verbatim>\<open>recentProgress\<close> lie behind it, and
  the effects performed so far.
\<close>

record wait_state =
  reads :: nat
  effects :: "effect list"

text \<open>The decimal rendering of a length inside the f-string.\<close>

fun str_nat :: "nat \<Rightarrow> string" where
  "str_nat n =
     (if n < 10 then [''0123456789'' ! n]
      else str_nat (n div 10) @ [''0123456789'' ! (n mod 10)])"

declare str_nat.simps [simp del]

definition loop_test :: "'p StreamingQuery \<Rightarrow> int \<Rightarrow> wait_state \<Rightarrow> bool" where
  "loop_test query min_batches s \<longleftrightarrow>
     int (length (recentProgress query (reads s))) < min_batches"

definition loop_body :: "wait_state \<Rightarrow> wait_state" where
  "loop_body s = \<lparr>reads = Suc (reads s), effects = effects s @ [Sleep 5]\<rparr>"

text \<open>
  The \<^verbatim>\<open>while\<close> loop. The test is read number \<open>reads s\<close>; when it fails the loop is
  left with the state unchanged, so \<open>reads s\<close> of the result is the number of the read
  that ended the loop.
\<close>

partial_function (option) wait_loop ::
  "'p StreamingQuery \<Rightarrow> int \<Rightarrow> wait_state \<Rightarrow> wait_state option" where
  "wait_loop query min_batches s =
     (if loop_test query min_batches s
      then wait_loop query min_batches (loop_body s)
      else Some s)"

declare wait_loop.simps [code]

text \<open>
  The whole function. The optional argument is \<open>None\<close> when the caller leaves it out,
  and then takes the default of the \<^verbatim>\<open>def\<close> line. The \<^verbatim>\<open>print\<close> after the loop reads
  the property once more: that is the read after the one that ended the loop.
\<close>

definition block_until_stream_is_ready ::
  "'p StreamingQuery \<Rightarrow> int option \<Rightarrow> effect list option" where
  "block_until_stream_is_ready query min_batches =
     (case wait_loop query (case min_batches of None \<Rightarrow> 2 | Some k \<Rightarrow> k)
             \<lparr>reads = 0, effects = []\<rparr> of
        None \<Rightarrow> None
      | Some s \<Rightarrow>
          Some (effects s @
            [Print (''The stream has processed ''
                    @ str_nat (length (recentProgress query (Suc (reads s))))
                    @ '' batchs'')]))"

subsection \<open>Teardown\<close>

text \<open>
  Modelled from the spec: \<^verbatim>\<open>DA.cleanup()\<close>, the teardown helper, is defined in the setup
  notebook \<^verbatim>\<open>./Includes/4.0-setup\<close>, which is not among the sources; the notebook only
  calls it. The specification gives a job the states
  \<^verbatim>\<open>CONFIGURED -> RUNNING -> (STOPPED | FAILED)\<close> and says of teardown that it
  ``stops all running job handles and releases any demonstration-only provisioned
  resources (working directories, checkpoint directories)'', that it ``must be safe to
  call even if some jobs already stopped'', and that on an already-stopped job it
  ``must be a no-op rather than an error''.
\<close>

datatype job_state = CONFIGURED | RUNNING | STOPPED | FAILED

datatype teardown_error = AlreadyStopped

record coordinator =
  jobs :: "job_state list"
  resources :: "string list"

fun stop_job :: "job_state \<Rightarrow> job_state" where
  "stop_job RUNNING = STOPPED"
| "stop_job j = j"

definition teardown :: "coordinator \<Rightarrow> teardown_error + coordinator" where
  "teardown c = Inr \<lparr>jobs = map stop_job (jobs c), resources = []\<rparr>"

section \<open>Properties of autoload_to_table\<close>

lemma strip_blank_iff: "length (strip s) = 0 \<longleftrightarrow> (\<forall>c \<in> set s. isspace c)"
proof
  assume "length (strip s) = 0"
  then have all: "\<forall>c \<in> set (dropWhile isspace s). isspace c"
    by (simp add: strip_def dropWhile_eq_Nil_conv)
  have "dropWhile isspace s = []"
  proof (rule ccontr)
    assume ne: "dropWhile isspace s \<noteq> []"
    then have "\<not> isspace (hd (dropWhile isspace s))" by (rule hd_dropWhile)
    moreover have "hd (dropWhile isspace s) \<in> set (dropWhile isspace s)"
      using ne by (rule hd_in_set)
    ultimately show False using all by blast
  qed
  then show "\<forall>c \<in> set s. isspace c" by (simp add: dropWhile_eq_Nil_conv)
next
  assume "\<forall>c \<in> set s. isspace c"
  then have d: "dropWhile isspace s = []" by (simp add: dropWhile_eq_Nil_conv)
  show "length (strip s) = 0" unfolding strip_def d by simp
qed

lemma autoload_to_table_cases:
  "autoload_to_table spark data_source source_format table_name checkpoint_directory =
     (if length (strip data_source) = 0 then Inl PathNotNonEmptyStr
      else case load_raises spark
                  \<lparr>df_reader =
                     \<lparr>r_format = Some ''cloudFiles'',
                      r_options = [(''cloudFiles.format'', source_format),
                                   (''cloudFiles.schemaLocation'', checkpoint_directory)]\<rparr>,
                   df_path = data_source\<rparr> of
             Some e \<Rightarrow> Inl (Raised e)
           | None \<Rightarrow>
               (case table_answer spark
                  \<lparr>q_writer =
                     \<lparr>w_df =
                        \<lparr>df_reader =
                           \<lparr>r_format = Some ''cloudFiles'',
                            r_options = [(''cloudFiles.format'', source_format),
                                         (''cloudFiles.schemaLocation'',
                                          checkpoint_directory)]\<rparr>,
                         df_path = data_source\<rparr>,
                      w_options = [(''checkpointLocation'', checkpoint_directory),
                                   (''mergeSchema'', ''true'')]\<rparr>,
                   q_table = table_name\<rparr> of
                  Inl e \<Rightarrow> Inl (Raised e)
                | Inr q \<Rightarrow> Inr q))"
  by (simp add: autoload_to_table_def table_def writer_option_def writeStream_def load_def
      reader_option_def format_def readStream_def split: option.split)

text \<open>
  Claim C2, as amended. \<^verbatim>\<open>autoload_to_table\<close> has no check of its own: its four strings
  go unchanged into the library calls, and the chain runs up to the first call that
  raises. PySpark's \<^verbatim>\<open>load\<close> raises for a \<^verbatim>\<open>data_source\<close> that is empty or all
  whitespace, and then the engine is not asked at all. Otherwise the engine is asked to
  load, and unless it raises there it is asked to start the query: the source format,
  the table name and the checkpoint directory reach it as they are, empty or not.
\<close>

theorem autoload_to_table_forwards_unchecked:
  "autoload_to_table spark data_source source_format table_name checkpoint_directory =
     (if length (strip data_source) = 0 then Inl PathNotNonEmptyStr
      else case load_raises spark
                  \<lparr>df_reader =
                     \<lparr>r_format = Some ''cloudFiles'',
                      r_options = [(''cloudFiles.format'', source_format),
                                   (''cloudFiles.schemaLocation'', checkpoint_directory)]\<rparr>,
                   df_path = data_source\<rparr> of
             Some e \<Rightarrow> Inl (Raised e)
           | None \<Rightarrow>
               (case table_answer spark
                  \<lparr>q_writer =
                     \<lparr>w_df =
                        \<lparr>df_reader =
                           \<lparr>r_format = Some ''cloudFiles'',
                            r_options = [(''cloudFiles.format'', source_format),
                                         (''cloudFiles.schemaLocation'',
                                          checkpoint_directory)]\<rparr>,
                         df_path = data_source\<rparr>,
                      w_options = [(''checkpointLocation'', checkpoint_directory),
                                   (''mergeSchema'', ''true'')]\<rparr>,
                   q_table = table_name\<rparr> of
                  Inl e \<Rightarrow> Inl (Raised e)
                | Inr q \<Rightarrow> Inr q))"
  by (rule autoload_to_table_cases)

text \<open>
  The claim as written fails at an empty table name. The engine below raises nothing at
  \<^verbatim>\<open>.load\<close> and starts whatever it is asked to start, answering with the request itself;
  called with it, \<^verbatim>\<open>autoload_to_table\<close> returns a started query whose table name is the
  empty string.
\<close>

theorem autoload_to_table_no_validation_counterexample:
  "autoload_to_table
       (\<lparr>load_raises = Map.empty, table_answer = Inr\<rparr> :: (string, StartRequest) spark)
       ''/working_dir/tracker'' ''json'' '''' ''/checkpoints/target_table''
     = Inr \<lparr>q_writer =
          \<lparr>w_df =
             \<lparr>df_reader =
                \<lparr>r_format = Some ''cloudFiles'',
                 r_options = [(''cloudFiles.format'', ''json''),
                              (''cloudFiles.schemaLocation'', ''/checkpoints/target_table'')]\<rparr>,
              df_path = ''/working_dir/tracker''\<rparr>,
           w_options = [(''checkpointLocation'', ''/checkpoints/target_table''),
                        (''mergeSchema'', ''true'')]\<rparr>,
        q_table = ''''\<rparr>"
  by (simp add: autoload_to_table_def table_def writer_option_def writeStream_def load_def
      reader_option_def format_def readStream_def strip_def isspace_def)

text \<open>
  Claim C4, as amended. There are one question to \<^verbatim>\<open>.load\<close> and one start request, fixed
  by the four arguments alone, such that whatever the engine: a \<^verbatim>\<open>data_source\<close> that is
  empty or all whitespace ends the call in \<^verbatim>\<open>.load\<close> with the \<^verbatim>\<open>ValueError\<close>, before
  any write option is set; otherwise the engine is asked to load, and when it raises
  nothing, asked to start. What is loaded has \<^verbatim>\<open>checkpoint_directory\<close> as the only value
  of the read option \<^verbatim>\<open>cloudFiles.schemaLocation\<close>; what is started writes what was
  loaded and has \<^verbatim>\<open>checkpoint_directory\<close> as the only value of the write option
  \<^verbatim>\<open>checkpointLocation\<close>.
\<close>

theorem checkpoint_directory_roots_both_states:
  "\<exists>df req.
     (\<forall>spark :: ('e, 'q) spark.
        autoload_to_table spark data_source source_format table_name checkpoint_directory
          = (if length (strip data_source) = 0 then Inl PathNotNonEmptyStr
             else case load_raises spark df of
                    Some e \<Rightarrow> Inl (Raised e)
                  | None \<Rightarrow> (case table_answer spark req of
                               Inl e \<Rightarrow> Inl (Raised e)
                             | Inr q \<Rightarrow> Inr q)))
   \<and> w_df (q_writer req) = df
   \<and> [v. (k, v) \<leftarrow> r_options (df_reader df),
          k = ''cloudFiles.schemaLocation''] = [checkpoint_directory]
   \<and> [v. (k, v) \<leftarrow> w_options (q_writer req),
          k = ''checkpointLocation''] = [checkpoint_directory]"
  by (intro exI conjI allI, rule autoload_to_table_cases) simp_all

text \<open>
  The claim as written, for every call, fails at an empty source directory: even with
  an engine that would load and start anything, the call ends with the \<^verbatim>\<open>ValueError\<close>
  of \<^verbatim>\<open>.load\<close>, and no checkpoint location is passed to any write.
\<close>

theorem checkpoint_directory_blank_source_counterexample:
  "autoload_to_table
       (\<lparr>load_raises = Map.empty, table_answer = Inr\<rparr> :: (string, StartRequest) spark)
       '''' ''json'' ''target_table'' ''/checkpoints/target_table''
     = Inl PathNotNonEmptyStr"
  by (simp add: autoload_to_table_def load_def strip_def)

text \<open>
  Claim C10, as amended. When \<^verbatim>\<open>data_source\<close> is empty or all whitespace the call ends
  in \<^verbatim>\<open>.load\<close> and no pipeline is built. Otherwise what is loaded always has the read
  format \<^verbatim>\<open>cloudFiles\<close>, and what is started, when the load raises nothing, writes what
  was loaded and has \<^verbatim>\<open>true\<close> as the only value of the write option \<^verbatim>\<open>mergeSchema\<close>.
  The argument \<^verbatim>\<open>source_format\<close> is the only value of the read option
  \<^verbatim>\<open>cloudFiles.format\<close> and appears nowhere else: with another source format the table
  name, the write options, the load path, the read format and the read option keys are
  the same, and so are the read options apart from \<^verbatim>\<open>cloudFiles.format\<close>.
\<close>

theorem autoload_to_table_fixed_shape:
  "\<exists>df req df' req'.
     (\<forall>spark :: ('e, 'q) spark.
        autoload_to_table spark data_source source_format table_name checkpoint_directory
          = (if length (strip data_source) = 0 then Inl PathNotNonEmptyStr
             else case load_raises spark df of
                    Some e \<Rightarrow> Inl (Raised e)
                  | None \<Rightarrow> (case table_answer spark req of
                               Inl e \<Rightarrow> Inl (Raised e)
                             | Inr q \<Rightarrow> Inr q)))
   \<and> (\<forall>spark :: ('e, 'q) spark.
        autoload_to_table spark data_source source_format' table_name checkpoint_directory
          = (if length (strip data_source) = 0 then Inl PathNotNonEmptyStr
             else case load_raises spark df' of
                    Some e \<Rightarrow> Inl (Raised e)
                  | None \<Rightarrow> (case table_answer spark req' of
                               Inl e \<Rightarrow> Inl (Raised e)
                             | Inr q \<Rightarrow> Inr q)))
   \<and> w_df (q_writer req) = df
   \<and> w_df (q_writer req') = df'
   \<and> r_format (df_reader df) = Some ''cloudFiles''
   \<and> [v. (k, v) \<leftarrow> w_options (q_writer req), k = ''mergeSchema''] = [''true'']
   \<and> [v. (k, v) \<leftarrow> r_options (df_reader df), k = ''cloudFiles.format''] = [source_format]
   \<and> q_table req = q_table req'
   \<and> w_options (q_writer req) = w_options (q_writer req')
   \<and> df_path df = df_path df'
   \<and> r_format (df_reader df) = r_format (df_reader df')
   \<and> map fst (r_options (df_reader df)) = map fst (r_options (df_reader df'))
   \<and> [(k, v) \<leftarrow> r_options (df_reader df). k \<noteq> ''cloudFiles.format'']
       = [(k, v) \<leftarrow> r_options (df_reader df'). k \<noteq> ''cloudFiles.format'']"
  by (intro exI conjI allI, rule autoload_to_table_cases, rule autoload_to_table_cases)
     simp_all

text \<open>
  The claim as written, for every input tuple, fails at a source directory of three
  blanks: even with an engine that would load and start anything, the call ends with
  the \<^verbatim>\<open>ValueError\<close> of \<^verbatim>\<open>.load\<close>, and no write with a merge-schema flag is built.
\<close>

theorem fixed_shape_blank_source_counterexample:
  "autoload_to_table
       (\<lparr>load_raises = Map.empty, table_answer = Inr\<rparr> :: (string, StartRequest) spark)
       ''   '' ''json'' ''target_table'' ''/checkpoints/target_table''
     = Inl PathNotNonEmptyStr"
  by (simp add: autoload_to_table_def load_def strip_def isspace_def)

section \<open>Properties of block_until_stream_is_ready\<close>

subsection \<open>The loop, iteration by iteration\<close>

lemma loop_body_funpow:
  "(loop_body ^^ i) s = \<lparr>reads = reads s + i, effects = effects s @ replicate i (Sleep 5)\<rparr>"
proof (induction i)
  case 0
  show ?case by simp
next
  case (Suc i)
  then show ?case
    by (simp add: loop_body_def replicate_append_same)
qed

lemma wait_loop_sound:
  assumes "wait_loop query k s = Some t"
  shows "\<exists>i. t = (loop_body ^^ i) s \<and> \<not> loop_test query k t
           \<and> (\<forall>j<i. loop_test query k ((loop_body ^^ j) s))"
proof (rule wait_loop.raw_induct
    [where P = "\<lambda>query k s t. \<exists>i. t = (loop_body ^^ i) s \<and> \<not> loop_test query k t
           \<and> (\<forall>j<i. loop_test query k ((loop_body ^^ j) s))", OF _ assms])
  fix wl and query :: "'a StreamingQuery" and k s t
  assume IH: "\<And>q k s y. wl q k s = Some y \<Longrightarrow>
          \<exists>i. y = (loop_body ^^ i) s \<and> \<not> loop_test q k y
           \<and> (\<forall>j<i. loop_test q k ((loop_body ^^ j) s))"
    and eq: "(if loop_test query k s then wl query k (loop_body s) else Some s) = Some t"
  show "\<exists>i. t = (loop_body ^^ i) s \<and> \<not> loop_test query k t
           \<and> (\<forall>j<i. loop_test query k ((loop_body ^^ j) s))"
  proof (cases "loop_test query k s")
    case False
    with eq have "t = (loop_body ^^ 0) s" "\<not> loop_test query k t" by simp_all
    then show ?thesis by blast
  next
    case True
    with eq have "wl query k (loop_body s) = Some t" by simp
    from IH[OF this] obtain i where i: "t = (loop_body ^^ i) (loop_body s)"
      "\<not> loop_test query k t" "\<forall>j<i. loop_test query k ((loop_body ^^ j) (loop_body s))"
      by blast
    have "t = (loop_body ^^ Suc i) s" using i(1) by (simp add: funpow_swap1)
    moreover have "\<forall>j<Suc i. loop_test query k ((loop_body ^^ j) s)"
    proof (intro allI impI)
      fix j assume "j < Suc i"
      show "loop_test query k ((loop_body ^^ j) s)"
      proof (cases j)
        case 0
        with True show ?thesis by simp
      next
        case (Suc j')
        with \<open>j < Suc i\<close> i(3) show ?thesis by (simp add: funpow_swap1)
      qed
    qed
    ultimately show ?thesis using i(2) by blast
  qed
qed

lemma wait_loop_complete:
  "\<not> loop_test query k ((loop_body ^^ i) s) \<Longrightarrow>
   (\<forall>j<i. loop_test query k ((loop_body ^^ j) s)) \<Longrightarrow>
   wait_loop query k s = Some ((loop_body ^^ i) s)"
proof (induction i arbitrary: s)
  case 0
  then show ?case by (simp add: wait_loop.simps)
next
  case (Suc i)
  from Suc.prems(2) have t: "loop_test query k s" by force
  have a: "\<not> loop_test query k ((loop_body ^^ i) (loop_body s))"
    using Suc.prems(1) by (simp add: funpow_swap1)
  have b: "\<forall>j<i. loop_test query k ((loop_body ^^ j) (loop_body s))"
  proof (intro allI impI)
    fix j assume "j < i"
    then have "Suc j < Suc i" by simp
    with Suc.prems(2) have "loop_test query k ((loop_body ^^ Suc j) s)" by blast
    then show "loop_test query k ((loop_body ^^ j) (loop_body s))" by (simp add: funpow_swap1)
  qed
  have "wait_loop query k s = wait_loop query k (loop_body s)"
    using t by (subst wait_loop.simps) simp
  also have "\<dots> = Some ((loop_body ^^ i) (loop_body s))" by (rule Suc.IH[OF a b])
  finally show ?case by (simp add: funpow_swap1)
qed

lemma start_funpow:
  "(loop_body ^^ i) \<lparr>reads = 0, effects = []\<rparr> = \<lparr>reads = i, effects = replicate i (Sleep 5)\<rparr>"
  by (simp add: loop_body_funpow)

lemma loop_test_start:
  "loop_test query k ((loop_body ^^ i) \<lparr>reads = 0, effects = []\<rparr>)
     \<longleftrightarrow> int (length (recentProgress query i)) < k"
  by (simp add: start_funpow loop_test_def)

lemma wait_loop_start_iff:
  "wait_loop query k \<lparr>reads = 0, effects = []\<rparr> = Some t \<longleftrightarrow>
     (\<exists>n. t = \<lparr>reads = n, effects = replicate n (Sleep 5)\<rparr>
        \<and> k \<le> int (length (recentProgress query n))
        \<and> (\<forall>i<n. int (length (recentProgress query i)) < k))"
  (is "?L \<longleftrightarrow> ?R")
proof
  assume ?L
  from wait_loop_sound[OF this] obtain i where
    i: "t = (loop_body ^^ i) \<lparr>reads = 0, effects = []\<rparr>"
       "\<not> loop_test query k t"
       "\<forall>j<i. loop_test query k ((loop_body ^^ j) \<lparr>reads = 0, effects = []\<rparr>)"
    by blast
  from i(1) have t: "t = \<lparr>reads = i, effects = replicate i (Sleep 5)\<rparr>"
    by (simp add: start_funpow)
  from i(2) have "k \<le> int (length (recentProgress query i))"
    unfolding i(1) loop_test_start by simp
  moreover from i(3) have "\<forall>j<i. int (length (recentProgress query j)) < k"
    unfolding loop_test_start .
  ultimately show ?R using t by blast
next
  assume ?R
  then obtain n where n: "t = \<lparr>reads = n, effects = replicate n (Sleep 5)\<rparr>"
    "k \<le> int (length (recentProgress query n))"
    "\<forall>i<n. int (length (recentProgress query i)) < k" by blast
  have "wait_loop query k \<lparr>reads = 0, effects = []\<rparr>
          = Some ((loop_body ^^ n) \<lparr>reads = 0, effects = []\<rparr>)"
    by (rule wait_loop_complete) (use n(2,3) in \<open>simp_all add: loop_test_start\<close>)
  then show ?L using n(1) by (simp add: start_funpow)
qed

subsection \<open>When the function returns\<close>

lemma block_returns_iff:
  "block_until_stream_is_ready query mb = Some es \<longleftrightarrow>
     (\<exists>n. (case mb of None \<Rightarrow> 2 | Some k \<Rightarrow> k) \<le> int (length (recentProgress query n))
        \<and> (\<forall>i<n. int (length (recentProgress query i)) < (case mb of None \<Rightarrow> 2 | Some k \<Rightarrow> k))
        \<and> es = replicate n (Sleep 5) @
            [Print (''The stream has processed ''
                    @ str_nat (length (recentProgress query (Suc n))) @ '' batchs'')])"
  (is "?L \<longleftrightarrow> ?R")
proof
  assume ?L
  then obtain t where t: "wait_loop query (case mb of None \<Rightarrow> 2 | Some k \<Rightarrow> k)
        \<lparr>reads = 0, effects = []\<rparr> = Some t"
    and es: "es = effects t @ [Print (''The stream has processed ''
                    @ str_nat (length (recentProgress query (Suc (reads t)))) @ '' batchs'')]"
    by (auto simp: block_until_stream_is_ready_def split: option.splits)
  from t obtain n where "t = \<lparr>reads = n, effects = replicate n (Sleep 5)\<rparr>"
     "(case mb of None \<Rightarrow> 2 | Some k \<Rightarrow> k) \<le> int (length (recentProgress query n))"
     "\<forall>i<n. int (length (recentProgress query i)) < (case mb of None \<Rightarrow> 2 | Some k \<Rightarrow> k)"
    unfolding wait_loop_start_iff by blast
  with es show ?R by auto
next
  assume ?R
  then obtain n where n:
     "(case mb of None \<Rightarrow> 2 | Some k \<Rightarrow> k) \<le> int (length (recentProgress query n))"
     "\<forall>i<n. int (length (recentProgress query i)) < (case mb of None \<Rightarrow> 2 | Some k \<Rightarrow> k)"
     "es = replicate n (Sleep 5) @
            [Print (''The stream has processed ''
                    @ str_nat (length (recentProgress query (Suc n))) @ '' batchs'')]"
    by blast
  from n(1,2) have "wait_loop query (case mb of None \<Rightarrow> 2 | Some k \<Rightarrow> k)
        \<lparr>reads = 0, effects = []\<rparr> = Some \<lparr>reads = n, effects = replicate n (Sleep 5)\<rparr>"
    unfolding wait_loop_start_iff by blast
  with n(3) show ?L by (simp add: block_until_stream_is_ready_def)
qed

lemma block_None_iff:
  "block_until_stream_is_ready query mb = None \<longleftrightarrow>
     (\<forall>n. int (length (recentProgress query n)) < (case mb of None \<Rightarrow> 2 | Some k \<Rightarrow> k))"
  (is "?L \<longleftrightarrow> ?R")
proof
  assume ?R
  show ?L
  proof (rule ccontr)
    assume "\<not> ?L"
    then obtain es where "block_until_stream_is_ready query mb = Some es" by blast
    then obtain n where
      "(case mb of None \<Rightarrow> 2 | Some k \<Rightarrow> k) \<le> int (length (recentProgress query n))"
      unfolding block_returns_iff by blast
    with \<open>?R\<close> show False by (simp add: not_less[symmetric])
  qed
next
  assume ?L
  show ?R
  proof (rule ccontr)
    assume "\<not> ?R"
    then have ex: "\<exists>n. (case mb of None \<Rightarrow> 2 | Some k \<Rightarrow> k) \<le> int (length (recentProgress query n))"
      by (simp add: not_less)
    define m where "m = (LEAST n. (case mb of None \<Rightarrow> 2 | Some k \<Rightarrow> k) \<le> int (length (recentProgress query n)))"
    have "(case mb of None \<Rightarrow> 2 | Some k \<Rightarrow> k) \<le> int (length (recentProgress query m))"
      unfolding m_def using ex by (rule LeastI_ex)
    moreover have "\<forall>i<m. int (length (recentProgress query i)) < (case mb of None \<Rightarrow> 2 | Some k \<Rightarrow> k)"
      unfolding m_def using not_less_Least by (auto simp: not_le[symmetric])
    ultimately have "\<exists>es. block_until_stream_is_ready query mb = Some es"
      unfolding block_returns_iff by blast
    with \<open>?L\<close> show False by simp
  qed
qed

text \<open>
  Claim C1. For every query handle and every threshold \<open>k\<close>, a call of the waiting
  helper returns exactly when some read of \<^verbatim>\<open>recentProgress\<close> shows at least \<open>k\<close> batches:
  it returns after the first such read, number \<open>n\<close>, having slept 5 seconds after each
  of the \<open>n\<close> earlier reads, all of which showed fewer than \<open>k\<close> batches. It never returns
  on a read that shows fewer than \<open>k\<close>.
\<close>

theorem block_until_stream_is_ready_returns_at_threshold:
  "block_until_stream_is_ready query (Some k) = Some es \<longleftrightarrow>
     (\<exists>n. k \<le> int (length (recentProgress query n))
        \<and> (\<forall>i<n. int (length (recentProgress query i)) < k)
        \<and> es = replicate n (Sleep 5) @
            [Print (''The stream has processed ''
                    @ str_nat (length (recentProgress query (Suc n))) @ '' batchs'')])"
  using block_returns_iff [of query "Some k" es] by simp

text \<open>
  A handle whose read number \<open>n\<close> shows \<open>n\<close> batches, waited on with threshold 2: reads 0
  and 1 are below the threshold, read 2 ends the loop, and the message reports read 3.
\<close>

theorem block_until_stream_is_ready_returns_at_threshold_witness:
  "block_until_stream_is_ready \<lparr>recentProgress = (\<lambda>n. replicate n ())\<rparr> (Some 2) =
         Some [Sleep 5, Sleep 5, Print ''The stream has processed 3 batchs'']
   \<and> (\<exists>n. (2::int) \<le> int (length (recentProgress \<lparr>recentProgress = (\<lambda>n. replicate n ())\<rparr> n))
        \<and> (\<forall>i<n. int (length (recentProgress \<lparr>recentProgress = (\<lambda>n. replicate n ())\<rparr> i)) < 2)
        \<and> [Sleep 5, Sleep 5, Print ''The stream has processed 3 batchs''] =
            replicate n (Sleep 5) @
            [Print (''The stream has processed ''
                    @ str_nat (length (recentProgress
                         \<lparr>recentProgress = (\<lambda>n. replicate n ())\<rparr> (Suc n)))
                    @ '' batchs'')])"
proof -
  have e: "block_until_stream_is_ready \<lparr>recentProgress = (\<lambda>n. replicate n ())\<rparr> (Some 2) =
         Some [Sleep 5, Sleep 5, Print ''The stream has processed 3 batchs'']"
    by (simp add: block_until_stream_is_ready_def wait_loop.simps loop_test_def
        loop_body_def str_nat.simps numeral_3_eq_3)
  from e block_until_stream_is_ready_returns_at_threshold
      [of "\<lparr>recentProgress = (\<lambda>n. replicate n ())\<rparr>" 2
          "[Sleep 5, Sleep 5, Print ''The stream has processed 3 batchs'']"]
  show ?thesis by blast
qed

subsection \<open>When the function never returns\<close>

text \<open>
  Claim C3. On a handle none of whose reads ever shows \<open>k\<close> batches the call never
  returns. The loop has one exit, its test, and the test holds at every iteration: after
  \<open>i\<close> iterations the function is still in the loop, having slept 5 seconds \<open>i\<close> times
  and done nothing else. Nothing in the loop counts the time or looks for a request to
  stop.
\<close>

theorem stalled_stream_never_returns:
  assumes "\<forall>n. int (length (recentProgress query n)) < k"
  shows "block_until_stream_is_ready query (Some k) = None
       \<and> (\<forall>i. loop_test query k ((loop_body ^^ i) \<lparr>reads = 0, effects = []\<rparr>)
             \<and> effects ((loop_body ^^ i) \<lparr>reads = 0, effects = []\<rparr>)
                 = replicate i (Sleep 5))"
proof -
  have "block_until_stream_is_ready query (Some k) = None"
    using assms block_None_iff [of query "Some k"] by simp
  moreover have "loop_test query k ((loop_body ^^ i) \<lparr>reads = 0, effects = []\<rparr>)" for i
    using assms by (simp add: loop_test_start)
  moreover have "effects ((loop_body ^^ i) \<lparr>reads = 0, effects = []\<rparr>)
      = replicate i (Sleep 5)" for i
    by (simp add: start_funpow)
  ultimately show ?thesis by blast
qed

text \<open>A stream stuck at one batch, waited on with threshold 2.\<close>

theorem stalled_stream_never_returns_witness:
  "(\<forall>n. int (length (recentProgress \<lparr>recentProgress = (\<lambda>n. [()])\<rparr> n)) < 2)
   \<and> block_until_stream_is_ready \<lparr>recentProgress = (\<lambda>n. [()])\<rparr> (Some 2) = None
   \<and> (\<forall>i. loop_test \<lparr>recentProgress = (\<lambda>n. [()])\<rparr> 2
              ((loop_body ^^ i) \<lparr>reads = 0, effects = []\<rparr>)
          \<and> effects ((loop_body ^^ i) \<lparr>reads = 0, effects = []\<rparr>) = replicate i (Sleep 5))"
proof -
  have h: "\<forall>n. int (length (recentProgress \<lparr>recentProgress = (\<lambda>n. [()])\<rparr> n)) < 2"
    by simp
  from h stalled_stream_never_returns [OF h] show ?thesis by blast
qed

subsection \<open>The default threshold\<close>

text \<open>
  Claim C8. A call without a threshold behaves as the call with threshold 2: the two
  have the same outcome on every handle, and when the call without a threshold returns,
  it does so at the first read that shows at least 2 batches.
\<close>

theorem default_threshold_is_two:
  "block_until_stream_is_ready query None = block_until_stream_is_ready query (Some 2)
   \<and> (\<forall>es. block_until_stream_is_ready query None = Some es \<longrightarrow>
         (\<exists>n. 2 \<le> length (recentProgress query n)
            \<and> (\<forall>i<n. length (recentProgress query i) < 2)
            \<and> es = replicate n (Sleep 5) @
                [Print (''The stream has processed ''
                        @ str_nat (length (recentProgress query (Suc n))) @ '' batchs'')]))"
proof -
  have "block_until_stream_is_ready query None = block_until_stream_is_ready query (Some 2)"
    by (simp add: block_until_stream_is_ready_def)
  moreover have "\<exists>n. 2 \<le> length (recentProgress query n)
            \<and> (\<forall>i<n. length (recentProgress query i) < 2)
            \<and> es = replicate n (Sleep 5) @
                [Print (''The stream has processed ''
                        @ str_nat (length (recentProgress query (Suc n))) @ '' batchs'')]"
    if "block_until_stream_is_ready query None = Some es" for es
    using that unfolding block_returns_iff by simp
  ultimately show ?thesis by blast
qed

theorem default_threshold_is_two_witness:
  "block_until_stream_is_ready \<lparr>recentProgress = (\<lambda>n. replicate n ())\<rparr> None
     = Some [Sleep 5, Sleep 5, Print ''The stream has processed 3 batchs'']
   \<and> block_until_stream_is_ready \<lparr>recentProgress = (\<lambda>n. replicate n ())\<rparr> (Some 2)
     = Some [Sleep 5, Sleep 5, Print ''The stream has processed 3 batchs'']
   \<and> (\<exists>n. 2 \<le> length (recentProgress \<lparr>recentProgress = (\<lambda>n. replicate n ())\<rparr> n)
        \<and> (\<forall>i<n. length (recentProgress \<lparr>recentProgress = (\<lambda>n. replicate n ())\<rparr> i) < 2)
        \<and> [Sleep 5, Sleep 5, Print ''The stream has processed 3 batchs''] =
            replicate n (Sleep 5) @
            [Print (''The stream has processed ''
                    @ str_nat (length (recentProgress
                         \<lparr>recentProgress = (\<lambda>n. replicate n ())\<rparr> (Suc n)))
                    @ '' batchs'')])"
proof -
  have e: "block_until_stream_is_ready \<lparr>recentProgress = (\<lambda>n. replicate n ())\<rparr> None =
         Some [Sleep 5, Sleep 5, Print ''The stream has processed 3 batchs'']"
    by (simp add: block_until_stream_is_ready_def wait_loop.simps loop_test_def
        loop_body_def str_nat.simps numeral_3_eq_3)
  from e default_threshold_is_two [of "\<lparr>recentProgress = (\<lambda>n. replicate n ())\<rparr>"]
  show ?thesis by metis
qed

subsection \<open>A stream that is ready at the call\<close>

text \<open>
  Claim C9. The test comes before the sleep: when the first read already shows at least
  \<open>min_batches\<close> batches the call returns having printed its message and slept not at
  all. A threshold of 0 or less is met by every first read, a length being at least 0.
\<close>

theorem returns_at_once_when_ready:
  "(k \<le> int (length (recentProgress query 0)) \<longrightarrow>
      block_until_stream_is_ready query (Some k) =
        Some [Print (''The stream has processed ''
                     @ str_nat (length (recentProgress query 1)) @ '' batchs'')])
   \<and> (k \<le> 0 \<longrightarrow>
      block_until_stream_is_ready query (Some k) =
        Some [Print (''The stream has processed ''
                     @ str_nat (length (recentProgress query 1)) @ '' batchs'')])"
proof -
  have a: "block_until_stream_is_ready query (Some k) =
        Some [Print (''The stream has processed ''
                     @ str_nat (length (recentProgress query 1)) @ '' batchs'')]"
    if "k \<le> int (length (recentProgress query 0))"
    using that
    by (subst block_until_stream_is_ready_def, subst wait_loop.simps)
       (simp add: loop_test_def)
  moreover have "k \<le> int (length (recentProgress query 0))" if "k \<le> 0"
    using that by simp
  ultimately show ?thesis by blast
qed

text \<open>
  A stream that shows three batches from the start, waited on with threshold 2, and an
  empty stream waited on with threshold 0.
\<close>

theorem returns_at_once_when_ready_witness:
  "(2::int) \<le> int (length (recentProgress \<lparr>recentProgress = (\<lambda>n. replicate (n + 3) ())\<rparr> 0))
   \<and> block_until_stream_is_ready \<lparr>recentProgress = (\<lambda>n. replicate (n + 3) ())\<rparr> (Some 2) =
        Some [Print ''The stream has processed 4 batchs'']
   \<and> (0::int) \<le> 0
   \<and> block_until_stream_is_ready \<lparr>recentProgress = (\<lambda>n. ([] :: unit list))\<rparr> (Some 0) =
        Some [Print ''The stream has processed 0 batchs'']"
proof -
  have "str_nat 4 = ''4''" "str_nat 0 = ''0''"
    by (simp_all add: str_nat.simps)
  with returns_at_once_when_ready [of 2 "\<lparr>recentProgress = (\<lambda>n. replicate (n + 3) ())\<rparr>"]
    returns_at_once_when_ready [of 0 "\<lparr>recentProgress = (\<lambda>n. ([] :: unit list))\<rparr>"]
  show ?thesis by simp
qed

section \<open>Properties of teardown\<close>

lemma stop_job_idem: "stop_job (stop_job j) = stop_job j"
  by (cases j) simp_all

text \<open>
  Claim C5. Teardown succeeds from every state, and a second teardown succeeds too and
  leaves the state the first one produced. The list of jobs keeps its length, and a job
  that was already stopped is still stopped afterwards.
\<close>

theorem teardown_idempotent:
  "\<exists>c'. teardown c = Inr c' \<and> teardown c' = Inr c'
       \<and> length (jobs c') = length (jobs c)
       \<and> (\<forall>i<length (jobs c). jobs c ! i = STOPPED \<longrightarrow> jobs c' ! i = STOPPED)"
proof -
  have "map stop_job (map stop_job (jobs c)) = map stop_job (jobs c)"
    by (simp add: stop_job_idem)
  then show ?thesis by (simp add: teardown_def)
qed

text \<open>One job of each state, the second one already stopped, and two directories.\<close>

theorem teardown_idempotent_witness:
  "teardown \<lparr>jobs = [RUNNING, STOPPED, FAILED, CONFIGURED],
             resources = [''/working_dir'', ''/checkpoints'']\<rparr>
     = Inr \<lparr>jobs = [STOPPED, STOPPED, FAILED, CONFIGURED], resources = []\<rparr>
   \<and> teardown \<lparr>jobs = [STOPPED, STOPPED, FAILED, CONFIGURED], resources = []\<rparr>
     = Inr \<lparr>jobs = [STOPPED, STOPPED, FAILED, CONFIGURED], resources = []\<rparr>
   \<and> [RUNNING, STOPPED, FAILED, CONFIGURED] ! 1 = STOPPED
   \<and> [STOPPED, STOPPED, FAILED, CONFIGURED] ! 1 = STOPPED"
  using teardown_idempotent [of "\<lparr>jobs = [RUNNING, STOPPED, FAILED, CONFIGURED],
             resources = [''/working_dir'', ''/checkpoints'']\<rparr>"]
  by (simp add: teardown_def)

end
